theory Spec2Isabelle
  imports Main
begin

section \<open>Values crossing the socket\<close>

text \<open>
  The acknowledgement envelope, the errors caught by the promise code and the payloads
  handed to \<^verbatim>\<open>socket.emit\<close> are untyped at run time (\<^verbatim>\<open>any\<close>).
  They are modelled by a small universe of JavaScript values. Numbers are restricted to
  integers; an object is its list of own properties, at most one entry per key.
\<close>

datatype jsval =
    JUndefined
  | JNull
  | JBool bool
  | JNum int
  | JStr string
  | JObj "(string \<times> jsval) list"

text \<open>Truthiness, as the conditions \<^verbatim>\<open>if (x)\<close> and \<^verbatim>\<open>x ? a : b\<close> read a value.\<close>

fun truthy :: "jsval \<Rightarrow> bool" where
  "truthy JUndefined = False"
| "truthy JNull = False"
| "truthy (JBool b) = b"
| "truthy (JNum n) = (n \<noteq> 0)"
| "truthy (JStr s) = (s \<noteq> [])"
| "truthy (JObj fs) = True"

text \<open>
  Optional property access \<^verbatim>\<open>v?.k\<close>: \<^verbatim>\<open>undefined\<close> on a nullish receiver, on a
  primitive (none of the keys read here is a property of a primitive's wrapper) and on
  an object without the key.
\<close>

fun get_prop :: "jsval \<Rightarrow> string \<Rightarrow> jsval" where
  "get_prop (JObj fs) k = (case map_of fs k of Some v \<Rightarrow> v | None \<Rightarrow> JUndefined)"
| "get_prop v k = JUndefined"

text \<open>Nullish coalescing \<^verbatim>\<open>v ?? d\<close>.\<close>

fun coalesce :: "jsval \<Rightarrow> jsval \<Rightarrow> jsval" where
  "coalesce JUndefined d = d"
| "coalesce JNull d = d"
| "coalesce v d = v"

text \<open>\<^verbatim>\<open>new Error(m)\<close>, as far as the code reads it: an object with a message.\<close>

definition JError :: "string \<Rightarrow> jsval" where
  "JError m = JObj [(''message'', JStr m)]"

section \<open>Rendering numbers and the clock\<close>

definition digit_char :: "nat \<Rightarrow> char" where
  "digit_char n = ''0123456789'' ! (n mod 10)"

function show_nat :: "nat \<Rightarrow> string" where
  "show_nat n = (if n < 10 then [digit_char n] else show_nat (n div 10) @ [digit_char (n mod 10)])"
  by pat_completeness auto
termination
  by (relation "measure (\<lambda>n. n)") auto

declare show_nat.simps [simp del]

text \<open>
  \<^verbatim>\<open>String(n)\<close> for a number that is a safe integer (of magnitude below \<open>2^53\<close>),
  where it is the decimal digits with a sign; the turn and the coordinates of a square
  are such numbers. Fractions and larger magnitudes, which print differently, are
  outside the model.
\<close>

definition show_int :: "int \<Rightarrow> string" where
  "show_int i = (if i < 0 then ''-'' @ show_nat (nat (- i)) else show_nat (nat i))"

text \<open>\<^verbatim>\<open>s.padStart(2, '0')\<close>.\<close>

definition padStart2 :: "string \<Rightarrow> string" where
  "padStart2 s = replicate (2 - length s) (CHR ''0'') @ s"

text \<open>
  \<^verbatim>\<open>new Date()\<close> is the local time in milliseconds; the three getters used by
  \<^verbatim>\<open>pushLog\<close> read the time of day from it.
\<close>

type_synonym date = nat

definition getHours :: "date \<Rightarrow> nat" where
  "getHours d = (d div 3600000) mod 24"

definition getMinutes :: "date \<Rightarrow> nat" where
  "getMinutes d = (d div 60000) mod 60"

definition getSeconds :: "date \<Rightarrow> nat" where
  "getSeconds d = (d div 1000) mod 60"

section \<open>The data model (utils/types)\<close>

datatype Side = ATTACKER | DEFENDER

datatype Piece = PieceA | PieceD | PieceK

datatype Phase = IN_PROGRESS | GAME_OVER

datatype Difficulty = Diff2 | Diff4

record Pos =
  row :: int
  col :: int

record TablutMove =
  m_from :: Pos
  m_to :: Pos
  capturesPreview :: "Pos list"

record MoveRecord =
  turn :: int
  side :: Side
  r_from :: Pos
  r_to :: Pos
  captures :: "Pos list"
  capturedPieces :: "Piece list"

record TablutState =
  id_state :: string
  version :: int
  phase :: Phase
  sideToMove :: Side
  board :: "Piece option list"
  kingHasLeftThrone :: bool
  humanSide :: Side
  botSide :: Side
  attackerIsHuman :: bool
  defenderIsHuman :: bool
  winnerSide :: "Side option"
  difficulty :: Difficulty
  legalMoves :: "TablutMove list"
  moveHistory :: "MoveRecord list"

text \<open>The payload of a \<^verbatim>\<open>move:result\<close> push.\<close>

record MoveResult =
  mr_side :: Side
  mr_from :: Pos
  mr_to :: Pos
  mr_captures :: "jsval list"

section \<open>The component App\<close>

text \<open>The calls App makes on the socket service, each returning a promise.\<close>

datatype request =
    Join string
  | GameNew Side Difficulty
  | ChangeDifficulty string Difficulty
  | PlayMove string Pos Pos

text \<open>
  The fields of the component, followed by the globals it reads and writes: the query
  parameter \<^verbatim>\<open>g\<close> of the page URL, the entry \<^verbatim>\<open>tablut:gameId\<close> of local storage
  (whose accessors may throw), and the calls made on the service so far, oldest first.
\<close>

record App =
  state :: "TablutState option"
  loading :: bool
  message :: string
  logs :: "string list"
  setupOpen :: bool
  setupSubmitting :: bool
  setupHumanSide :: Side
  setupDifficulty :: Difficulty
  selectedFrom :: "Pos option"
  currentStateGameId :: "string option"
  pendingNewGameWithBotOpening :: bool
  url_g :: "string option"
  ls_gameId :: "string option"
  ls_getItem_throws :: bool
  ls_setItem_throws :: bool
  requests :: "request list"

subsection \<open>Reading and writing the game identifier\<close>

text \<open>
  \<^verbatim>\<open>String.prototype.trim\<close> strips white space and line terminators from both ends.
  Strings are kept as their UTF-8 bytes, so each of these characters is the byte
  sequence that encodes it: U+0009 to U+000D, U+0020, U+00A0, U+1680, U+2000 to U+200A,
  U+2028, U+2029, U+202F, U+205F, U+3000 and U+FEFF.
\<close>

definition white_space :: "string list" where
  "white_space =
     [[CHR 0x09], [CHR 0x0A], [CHR 0x0B], [CHR 0x0C], [CHR 0x0D], [CHR 0x20],
      [CHR 0xC2, CHR 0xA0], [CHR 0xE1, CHR 0x9A, CHR 0x80],
      [CHR 0xE2, CHR 0x80, CHR 0x80], [CHR 0xE2, CHR 0x80, CHR 0x81],
      [CHR 0xE2, CHR 0x80, CHR 0x82], [CHR 0xE2, CHR 0x80, CHR 0x83],
      [CHR 0xE2, CHR 0x80, CHR 0x84], [CHR 0xE2, CHR 0x80, CHR 0x85],
      [CHR 0xE2, CHR 0x80, CHR 0x86], [CHR 0xE2, CHR 0x80, CHR 0x87],
      [CHR 0xE2, CHR 0x80, CHR 0x88], [CHR 0xE2, CHR 0x80, CHR 0x89],
      [CHR 0xE2, CHR 0x80, CHR 0x8A], [CHR 0xE2, CHR 0x80, CHR 0xA8],
      [CHR 0xE2, CHR 0x80, CHR 0xA9], [CHR 0xE2, CHR 0x80, CHR 0xAF],
      [CHR 0xE2, CHR 0x81, CHR 0x9F], [CHR 0xE3, CHR 0x80, CHR 0x80],
      [CHR 0xEF, CHR 0xBB, CHR 0xBF]]"

text \<open>
  The rest of a string after, or before, the first of the given sequences that it
  starts, or ends, with.
\<close>

fun strip_first :: "string list \<Rightarrow> string \<Rightarrow> string option" where
  "strip_first [] s = None"
| "strip_first (w # ws) s =
     (if take (length w) s = w then Some (drop (length w) s) else strip_first ws s)"

fun strip_last :: "string list \<Rightarrow> string \<Rightarrow> string option" where
  "strip_last [] s = None"
| "strip_last (w # ws) s =
     (if length w \<le> length s \<and> drop (length s - length w) s = w
      then Some (take (length s - length w) s) else strip_last ws s)"

lemma strip_first_shorter:
  "strip_first ws s = Some r \<Longrightarrow> [] \<notin> set ws \<Longrightarrow> length r < length s"
proof (induction ws)
  case Nil
  then show ?case by simp
next
  case (Cons w ws)
  show ?case
  proof (cases "take (length w) s = w")
    case True
    moreover from Cons.prems have "w \<noteq> []" by auto
    ultimately have "s \<noteq> []" by auto
    with True Cons.prems \<open>w \<noteq> []\<close> show ?thesis by auto
  next
    case False
    with Cons show ?thesis by auto
  qed
qed

lemma strip_last_shorter:
  "strip_last ws s = Some r \<Longrightarrow> [] \<notin> set ws \<Longrightarrow> length r < length s"
proof (induction ws)
  case Nil
  then show ?case by simp
next
  case (Cons w ws)
  show ?case
  proof (cases "length w \<le> length s \<and> drop (length s - length w) s = w")
    case True
    from Cons.prems have "w \<noteq> []" by auto
    then have "0 < length w" by simp
    with True have less: "length s - length w < length s" by arith
    from True Cons.prems have "r = take (length s - length w) s" by simp
    with less show ?thesis by simp
  next
    case False
    with Cons show ?thesis by auto
  qed
qed

lemma white_space_nonempty: "[] \<notin> set white_space"
  by (simp add: white_space_def)

function trimStart :: "string \<Rightarrow> string" where
  "trimStart s = (case strip_first white_space s of None \<Rightarrow> s | Some r \<Rightarrow> trimStart r)"
  by pat_completeness auto
termination
  by (relation "measure length") (auto dest: strip_first_shorter simp add: white_space_nonempty)

function trimEnd :: "string \<Rightarrow> string" where
  "trimEnd s = (case strip_last white_space s of None \<Rightarrow> s | Some r \<Rightarrow> trimEnd r)"
  by pat_completeness auto
termination
  by (relation "measure length") (auto dest: strip_last_shorter simp add: white_space_nonempty)

declare trimStart.simps [simp del] trimEnd.simps [simp del]

definition trim :: "string \<Rightarrow> string" where
  "trim s = trimEnd (trimStart s)"

definition readIdFromUrl :: "App \<Rightarrow> string option" where
  "readIdFromUrl s =
     (case url_g s of
        None \<Rightarrow> None
      | Some g \<Rightarrow> if g \<noteq> [] \<and> trim g \<noteq> [] then Some (trim g) else None)"

definition writeIdToUrl :: "string \<Rightarrow> App \<Rightarrow> App" where
  "writeIdToUrl i s = s\<lparr>url_g := Some i\<rparr>"

definition readGameIdFromLocalStorage :: "App \<Rightarrow> string option" where
  "readGameIdFromLocalStorage s =
     (if ls_getItem_throws s then None
      else case ls_gameId s of
             None \<Rightarrow> None
           | Some i \<Rightarrow> if i \<noteq> [] \<and> trim i \<noteq> [] then Some i else None)"

definition writeGameIdToLocalStorage :: "string \<Rightarrow> App \<Rightarrow> App" where
  "writeGameIdToLocalStorage i s =
     (if ls_setItem_throws s then s else s\<lparr>ls_gameId := Some i\<rparr>)"

subsection \<open>Derived values\<close>

definition humanTurn :: "App \<Rightarrow> bool" where
  "humanTurn s =
     (case state s of
        None \<Rightarrow> False
      | Some st \<Rightarrow> sideToMove st = humanSide st \<and> phase st = IN_PROGRESS)"

definition selectedTargets :: "App \<Rightarrow> Pos list" where
  "selectedTargets s =
     (case state s of
        None \<Rightarrow> []
      | Some st \<Rightarrow>
          (case selectedFrom s of
             None \<Rightarrow> []
           | Some f \<Rightarrow>
               map m_to (filter (\<lambda>m. row (m_from m) = row f \<and> col (m_from m) = col f)
                                (legalMoves st))))"

definition pieceAt :: "App \<Rightarrow> int \<Rightarrow> int \<Rightarrow> Piece option" where
  "pieceAt s r c =
     (case state s of
        None \<Rightarrow> None
      | Some st \<Rightarrow>
          (let i = r * 9 + c
           in if 0 \<le> i \<and> i < int (length (board st)) then board st ! nat i else None))"

definition isHumanPiece :: "Piece option \<Rightarrow> Side \<Rightarrow> bool" where
  "isHumanPiece piece hs =
     (case piece of
        None \<Rightarrow> False
      | Some p \<Rightarrow> if hs = ATTACKER then p = PieceA else (p = PieceD \<or> p = PieceK))"

definition hasMoveFrom :: "App \<Rightarrow> Pos \<Rightarrow> bool" where
  "hasMoveFrom s pos =
     (case state s of
        None \<Rightarrow> False
      | Some st \<Rightarrow>
          list_ex (\<lambda>m. row (m_from m) = row pos \<and> col (m_from m) = col pos) (legalMoves st))"

subsection \<open>The log\<close>

definition side_label :: "Side \<Rightarrow> string" where
  "side_label sd = (if sd = ATTACKER then ''Atacante'' else ''Defensor'')"

definition capture_suffix :: "nat \<Rightarrow> string" where
  "capture_suffix c = (if c \<noteq> 0 then '' x'' @ show_nat c else [])"

definition pos_text :: "Pos \<Rightarrow> string" where
  "pos_text p = ''('' @ show_int (row p) @ '','' @ show_int (col p) @ '')''"

definition stamp :: "date \<Rightarrow> string \<Rightarrow> string" where
  "stamp now msg =
     ''['' @ padStart2 (show_nat (getHours now)) @ '':'' @
     padStart2 (show_nat (getMinutes now)) @ '':'' @
     padStart2 (show_nat (getSeconds now)) @ ''] '' @ msg"

definition pushLog :: "date \<Rightarrow> string \<Rightarrow> App \<Rightarrow> App" where
  "pushLog now msg s = s\<lparr>logs := take 40 (stamp now msg # logs s)\<rparr>"

definition history_line :: "MoveRecord \<Rightarrow> string" where
  "history_line mv =
     ''#'' @ show_int (turn mv) @ '' '' @ side_label (side mv) @ '': '' @
     pos_text (r_from mv) @ '' -> '' @ pos_text (r_to mv) @
     capture_suffix (length (captures mv))"

text \<open>The loop of \<^verbatim>\<open>buildLogsFromHistory\<close>, pushing one line per record.\<close>

fun history_lines :: "MoveRecord list \<Rightarrow> string list \<Rightarrow> string list" where
  "history_lines [] lines = lines"
| "history_lines (mv # mvs) lines = history_lines mvs (lines @ [history_line mv])"

definition buildLogsFromHistory :: "TablutState \<Rightarrow> string list" where
  "buildLogsFromHistory st = take 40 (rev (history_lines (moveHistory st) []))"

subsection \<open>Failure messages\<close>

text \<open>The user-facing texts are kept as their UTF-8 bytes.\<close>

definition friendly_ack_timeout :: string where
  "friendly_ack_timeout =
     ''La jugada est'' @ [CHR 0xC3, CHR 0xA1] @ '' tardando m'' @ [CHR 0xC3, CHR 0xA1] @
     ''s de lo esperado. Intenta de nuevo en unos segundos.''"

definition friendly_connect :: string where
  "friendly_connect = ''No se pudo conectar al servidor de juego.''"

definition friendly_illegal :: string where
  "friendly_illegal =
     ''La jugada no es v'' @ [CHR 0xC3, CHR 0xA1] @ ''lida seg'' @ [CHR 0xC3, CHR 0xBA] @
     ''n el estado actual.''"

definition startsWith :: "string \<Rightarrow> string \<Rightarrow> bool" where
  "startsWith s p = (take (length p) s = p)"

definition toFriendlyError :: "jsval \<Rightarrow> string option" where
  "toFriendlyError raw =
     (let msg = (case raw of JStr m \<Rightarrow> m | _ \<Rightarrow> [])
      in if msg = [] then None
         else if startsWith msg ''ack_timeout:'' then Some friendly_ack_timeout
         else if msg = ''socket_connect_timeout'' \<or> msg = ''socket_not_connected''
           then Some friendly_connect
         else if msg = ''illegal_move'' then Some friendly_illegal
         else None)"

text \<open>The message both \<^verbatim>\<open>catch\<close> blocks compose from the caught error.\<close>

definition failure_text :: "string \<Rightarrow> jsval \<Rightarrow> string" where
  "failure_text errorMessage err =
     (case toFriendlyError (get_prop err ''message'') of
        Some friendly \<Rightarrow> errorMessage @ ''. '' @ friendly
      | None \<Rightarrow> errorMessage)"

subsection \<open>The subscriptions of the constructor\<close>

definition gameChanged :: "TablutState \<Rightarrow> App \<Rightarrow> bool" where
  "gameChanged st s = (currentStateGameId s \<noteq> Some (id_state st))"

definition onState :: "TablutState \<Rightarrow> App \<Rightarrow> App" where
  "onState st s =
     (let changed = gameChanged st s;
          s1 = s\<lparr>currentStateGameId := Some (id_state st), state := Some st,
                  message := [], selectedFrom := None\<rparr>;
          s2 = writeGameIdToLocalStorage (id_state st) (writeIdToUrl (id_state st) s1);
          s3 = (if changed then s2\<lparr>logs := buildLogsFromHistory st\<rparr> else s2);
          s4 = (if pendingNewGameWithBotOpening s3 then
                  (let botAlreadyOpened = (humanSide st = DEFENDER \<and> 0 < length (moveHistory st))
                   in if botAlreadyOpened
                      then s3\<lparr>pendingNewGameWithBotOpening := False, loading := False,
                              setupSubmitting := False\<rparr>
                      else s3\<lparr>loading := True\<rparr>)
                else s3\<lparr>loading := False, setupSubmitting := False\<rparr>)
      in if setupOpen s4 then s4\<lparr>setupOpen := False\<rparr> else s4)"

definition move_result_line :: "MoveResult \<Rightarrow> string" where
  "move_result_line mv =
     side_label (mr_side mv) @ '': '' @ pos_text (mr_from mv) @ '' -> '' @
     pos_text (mr_to mv) @ capture_suffix (length (mr_captures mv))"

definition onMoveResult :: "date \<Rightarrow> MoveResult \<Rightarrow> App \<Rightarrow> App" where
  "onMoveResult now mv s = pushLog now (move_result_line mv) s"

definition onTurnNote :: "date \<Rightarrow> string \<Rightarrow> App \<Rightarrow> App" where
  "onTurnNote now msg s = pushLog now msg s"

definition onBotThinking :: "bool \<Rightarrow> App \<Rightarrow> App" where
  "onBotThinking active s =
     (if pendingNewGameWithBotOpening s then
        (let s1 = s\<lparr>loading := active\<rparr>
         in if \<not> active
            then s1\<lparr>pendingNewGameWithBotOpening := False, setupSubmitting := False\<rparr>
            else s1)
      else s)"

definition onGameOver :: "date \<Rightarrow> Side \<Rightarrow> App \<Rightarrow> App" where
  "onGameOver now w s =
     (pushLog now (''Fin de partida. Ganador: '' @ side_label w) s)
       \<lparr>message := ''Juego terminado. Ganador: '' @ side_label w\<rparr>"

subsection \<open>Actions\<close>

text \<open>
  An \<^verbatim>\<open>async\<close> method is cut at its \<^verbatim>\<open>await\<close>: the part that runs at once, up to and
  including the call on the service, and the two continuations, run when the promise of
  that call has settled. Other handlers may run in between.
\<close>

definition runAction_call :: "request \<Rightarrow> App \<Rightarrow> App" where
  "runAction_call req s = (s\<lparr>loading := True\<rparr>)\<lparr>requests := requests s @ [req]\<rparr>"

definition runAction_resolved :: "App \<Rightarrow> App" where
  "runAction_resolved s = s"

definition runAction_rejected :: "string \<Rightarrow> jsval \<Rightarrow> App \<Rightarrow> App" where
  "runAction_rejected errorMessage err s =
     s\<lparr>message := failure_text errorMessage err, loading := False\<rparr>"

definition bootstrapGame :: "App \<Rightarrow> App" where
  "bootstrapGame s =
     (let s1 = s\<lparr>loading := True, message := ''Cargando partida...''\<rparr>;
          fromUrl = readIdFromUrl s1;
          fromStorage = readGameIdFromLocalStorage s1;
          gameId = (case fromUrl of Some g \<Rightarrow> Some g | None \<Rightarrow> fromStorage)
      in case gameId of
           Some g \<Rightarrow> if g \<noteq> [] then runAction_call (Join g) s1
                     else s1\<lparr>loading := False, message := [], setupOpen := True\<rparr>
         | None \<Rightarrow> s1\<lparr>loading := False, message := [], setupOpen := True\<rparr>)"

definition startNewGame_reset :: "App \<Rightarrow> App" where
  "startNewGame_reset s =
     (let botStarts = (setupHumanSide s = DEFENDER)
      in s\<lparr>pendingNewGameWithBotOpening := botStarts, setupSubmitting := botStarts,
            loading := botStarts, message := [], logs := [], selectedFrom := None,
            state := None, currentStateGameId := None, setupOpen := False\<rparr>)"

definition startNewGame :: "App \<Rightarrow> App" where
  "startNewGame s =
     (let s1 = startNewGame_reset s
      in s1\<lparr>requests := requests s1 @ [GameNew (setupHumanSide s) (setupDifficulty s1)]\<rparr>)"

definition startNewGame_resolved :: "bool \<Rightarrow> App \<Rightarrow> App" where
  "startNewGame_resolved botStarts s =
     (if \<not> botStarts then s\<lparr>loading := False, setupSubmitting := False\<rparr> else s)"

definition startNewGame_rejected :: "jsval \<Rightarrow> App \<Rightarrow> App" where
  "startNewGame_rejected err s =
     s\<lparr>message := failure_text ''No se pudo crear la partida'' err,
       pendingNewGameWithBotOpening := False, loading := False,
       setupSubmitting := False, setupOpen := True\<rparr>"

definition onNewGameClick :: "App \<Rightarrow> App" where
  "onNewGameClick s = s\<lparr>setupOpen := True\<rparr>"

definition onDifficultyChange :: "Difficulty \<Rightarrow> App \<Rightarrow> App" where
  "onDifficultyChange next s =
     (let s1 = s\<lparr>setupDifficulty := next\<rparr>
      in case state s1 of
           None \<Rightarrow> s1
         | Some st \<Rightarrow> runAction_call (ChangeDifficulty (id_state st) next) s1)"

definition onSelectHumanSide :: "Side \<Rightarrow> App \<Rightarrow> App" where
  "onSelectHumanSide sd s = s\<lparr>setupHumanSide := sd\<rparr>"

definition onCellClick :: "int \<Rightarrow> int \<Rightarrow> App \<Rightarrow> App" where
  "onCellClick r c s =
     (case state s of
        None \<Rightarrow> s
      | Some st \<Rightarrow>
          if \<not> humanTurn s then s
          else
            (let clicked = \<lparr>row = r, col = c\<rparr>;
                 piece = pieceAt s r c
             in case selectedFrom s of
                  None \<Rightarrow>
                    if isHumanPiece piece (humanSide st) \<and> hasMoveFrom s clicked
                    then s\<lparr>selectedFrom := Some clicked\<rparr> else s
                | Some f \<Rightarrow>
                    if row f = r \<and> col f = c then s\<lparr>selectedFrom := None\<rparr>
                    else if list_ex (\<lambda>p. row p = r \<and> col p = c) (selectedTargets s)
                      then runAction_call (PlayMove (id_state st) f clicked)
                             (s\<lparr>selectedFrom := None\<rparr>)
                    else if isHumanPiece piece (humanSide st) \<and> hasMoveFrom s clicked
                      then s\<lparr>selectedFrom := Some clicked\<rparr>
                    else s\<lparr>selectedFrom := None\<rparr>))"

text \<open>The error text \<^verbatim>\<open>runAction\<close> is given by the caller of each request.\<close>

fun errorMessage_of :: "request \<Rightarrow> string" where
  "errorMessage_of (Join g) = ''No se pudo cargar la partida''"
| "errorMessage_of (ChangeDifficulty g d) = ''No se pudo cambiar dificultad''"
| "errorMessage_of (PlayMove g f t) = ''No se pudo jugar el movimiento''"
| "errorMessage_of (GameNew hs d) = ''No se pudo crear la partida''"

subsection \<open>Construction and runs\<close>

text \<open>
  The field initialisers of the class, over the globals found at start-up: the query
  parameter, the stored identifier, and whether the two storage accessors throw.
\<close>

definition new_App :: "string option \<Rightarrow> string option \<Rightarrow> bool \<Rightarrow> bool \<Rightarrow> App" where
  "new_App g stored get_throws set_throws =
     \<lparr>state = None, loading = False, message = [], logs = [],
      setupOpen = False, setupSubmitting = False, setupHumanSide = DEFENDER,
      setupDifficulty = Diff4, selectedFrom = None, currentStateGameId = None,
      pendingNewGameWithBotOpening = False,
      url_g = g, ls_gameId = stored, ls_getItem_throws = get_throws,
      ls_setItem_throws = set_throws, requests = []\<rparr>"

definition constructor :: "string option \<Rightarrow> string option \<Rightarrow> bool \<Rightarrow> bool \<Rightarrow> App" where
  "constructor g stored get_throws set_throws =
     bootstrapGame (new_App g stored get_throws set_throws)"

text \<open>
  Everything that can happen to the component afterwards: a push from the server (with
  the clock reading where the handler logs), a user action, or the settling of a call.
  A call that resolves carries the snapshot the server acknowledged with.
\<close>

datatype event =
    StatePush TablutState
  | MoveResultPush date MoveResult
  | TurnNotePush date string
  | BotThinkingPush bool
  | GameOverPush date Side
  | NewGameClick
  | SelectHumanSide Side
  | DifficultyChange Difficulty
  | StartNewGame
  | CellClick int int
  | CallResolved request TablutState
  | CallRejected request jsval

fun step :: "event \<Rightarrow> App \<Rightarrow> App" where
  "step (StatePush st) s = onState st s"
| "step (MoveResultPush now mv) s = onMoveResult now mv s"
| "step (TurnNotePush now msg) s = onTurnNote now msg s"
| "step (BotThinkingPush active) s = onBotThinking active s"
| "step (GameOverPush now w) s = onGameOver now w s"
| "step NewGameClick s = onNewGameClick s"
| "step (SelectHumanSide sd) s = onSelectHumanSide sd s"
| "step (DifficultyChange d) s = onDifficultyChange d s"
| "step StartNewGame s = startNewGame s"
| "step (CellClick r c) s = onCellClick r c s"
| "step (CallResolved (GameNew hs d) data) s = startNewGame_resolved (hs = DEFENDER) s"
| "step (CallResolved req data) s = runAction_resolved s"
| "step (CallRejected (GameNew hs d) err) s = startNewGame_rejected err s"
| "step (CallRejected req err) s = runAction_rejected (errorMessage_of req) err s"

fun run :: "event list \<Rightarrow> App \<Rightarrow> App" where
  "run [] s = s"
| "run (e # es) s = run es (step e s)"

section \<open>The socket service: one call of emitAck\<close>

definition ackTimeoutMs :: nat where
  "ackTimeoutMs = 20000"

definition connectTimeoutMs :: nat where
  "connectTimeoutMs = 5000"

text \<open>
  What the promise returned by \<^verbatim>\<open>emitAck\<close> is settled with: \<open>Resolved v\<close> is
  \<^verbatim>\<open>resolve(v)\<close>, and \<open>Rejected v\<close> is \<^verbatim>\<open>reject(new Error(v))\<close>.
\<close>

datatype outcome = Resolved jsval | Rejected jsval

text \<open>
  The state one call of \<^verbatim>\<open>emitAck\<close> lives in: its two arguments, the socket's
  \<^verbatim>\<open>connected\<close> flag, whether the listeners of \<^verbatim>\<open>ensureConnected\<close> are registered,
  the delay of each armed timer, the number of \<^verbatim>\<open>socket.connect()\<close> calls, what was
  handed to \<^verbatim>\<open>socket.emit\<close>, whether the acknowledgement callback is registered, the
  local \<^verbatim>\<open>settled\<close>, and every call of \<^verbatim>\<open>resolve\<close> or \<^verbatim>\<open>reject\<close>, oldest first.
\<close>

record call =
  event_name :: string
  payload :: jsval
  socket_connected :: bool
  connecting :: bool
  connect_timer :: "nat option"
  connect_calls :: nat
  emitted :: "(string \<times> jsval) list"
  ack_registered :: bool
  settled :: bool
  ack_timer :: "nat option"
  settlements :: "outcome list"

definition settle :: "outcome \<Rightarrow> call \<Rightarrow> call" where
  "settle out c = c\<lparr>settlements := settlements c @ [out]\<rparr>"

text \<open>A promise keeps the first outcome it is settled with.\<close>

definition promise_state :: "call \<Rightarrow> outcome option" where
  "promise_state c = (case settlements c of [] \<Rightarrow> None | out # _ \<Rightarrow> Some out)"

text \<open>\<^verbatim>\<open>cleanup\<close> of \<^verbatim>\<open>ensureConnected\<close>.\<close>

definition cleanup :: "call \<Rightarrow> call" where
  "cleanup c = c\<lparr>connect_timer := None, connecting := False\<rparr>"

text \<open>The body of \<^verbatim>\<open>emitAck\<close> after \<^verbatim>\<open>ensureConnected\<close> has returned.\<close>

definition emitAck_connected :: "call \<Rightarrow> call" where
  "emitAck_connected c =
     c\<lparr>settled := False, ack_timer := Some ackTimeoutMs,
       emitted := emitted c @ [(event_name c, payload c)], ack_registered := True\<rparr>"

text \<open>The \<^verbatim>\<open>catch\<close> of \<^verbatim>\<open>emitAck\<close> around \<^verbatim>\<open>ensureConnected\<close>.\<close>

definition emitAck_failed :: "jsval \<Rightarrow> call \<Rightarrow> call" where
  "emitAck_failed err c =
     settle (Rejected (coalesce (get_prop err ''message'') (JStr ''socket_not_connected''))) c"

text \<open>
  \<^verbatim>\<open>emitAck(event, payload)\<close> on a socket whose \<^verbatim>\<open>connected\<close> flag is given, up to its
  first wait: on a connected socket the request goes out; otherwise
  \<^verbatim>\<open>ensureConnected\<close> registers its listeners, arms its timer and calls
  \<^verbatim>\<open>socket.connect()\<close>.
\<close>

definition emitAck :: "string \<Rightarrow> jsval \<Rightarrow> bool \<Rightarrow> call" where
  "emitAck ev p conn =
     (let c = \<lparr>event_name = ev, payload = p, socket_connected = conn, connecting = False,
               connect_timer = None, connect_calls = 0, emitted = [],
               ack_registered = False, settled = False, ack_timer = None,
               settlements = []\<rparr>
      in if socket_connected c then emitAck_connected c
         else c\<lparr>connect_timer := Some connectTimeoutMs, connecting := True,
                connect_calls := connect_calls c + 1\<rparr>)"

text \<open>
  What the acknowledgement callback settles the promise with: \<^verbatim>\<open>resp.data\<close> when
  \<^verbatim>\<open>resp?.ok\<close> is truthy, an error made of \<^verbatim>\<open>resp?.error ?? 'error'\<close> otherwise.
\<close>

definition ack_result :: "jsval \<Rightarrow> outcome" where
  "ack_result resp =
     (if truthy (get_prop resp ''ok'') then Resolved (get_prop resp ''data'')
      else Rejected (coalesce (get_prop resp ''error'') (JStr ''error'')))"

text \<open>What can happen to the call afterwards; a timer fires only while it is armed.\<close>

datatype socket_event =
    Connect
  | ConnectError jsval
  | ConnectTimerFires
  | Ack jsval
  | AckTimerFires

fun handle :: "socket_event \<Rightarrow> call \<Rightarrow> call" where
  "handle Connect c =
     (let c1 = c\<lparr>socket_connected := True\<rparr>
      in if connecting c1 then emitAck_connected (cleanup c1) else c1)"
| "handle (ConnectError err) c =
     (if connecting c then emitAck_failed err (cleanup c) else c)"
| "handle ConnectTimerFires c =
     (case connect_timer c of
        None \<Rightarrow> c
      | Some d \<Rightarrow> emitAck_failed (JError ''socket_connect_timeout'') (cleanup c))"
| "handle AckTimerFires c =
     (case ack_timer c of
        None \<Rightarrow> c
      | Some d \<Rightarrow>
          (let c1 = c\<lparr>ack_timer := None\<rparr>
           in if settled c1 then c1
              else settle (Rejected (JStr (''ack_timeout:'' @ event_name c1)))
                     (c1\<lparr>settled := True\<rparr>)))"
| "handle (Ack resp) c =
     (if \<not> ack_registered c then c
      else if settled c then c
      else
        (let c1 = c\<lparr>settled := True, ack_timer := None\<rparr>
         in settle (ack_result resp) c1))"

fun run_call :: "socket_event list \<Rightarrow> call \<Rightarrow> call" where
  "run_call [] c = c"
| "run_call (e # es) c = run_call es (handle e c)"

subsection \<open>The four calls of the service\<close>

text \<open>
  \<^verbatim>\<open>join\<close>, \<^verbatim>\<open>gameNew\<close> (App never passes its optional \<^verbatim>\<open>gameId\<close>),
  \<^verbatim>\<open>changeDifficulty\<close> and \<^verbatim>\<open>playMove\<close>: each is \<^verbatim>\<open>emitAck\<close> with its event name
  and the payload built from its arguments.
\<close>

definition side_json :: "Side \<Rightarrow> jsval" where
  "side_json sd = JStr (if sd = ATTACKER then ''ATTACKER'' else ''DEFENDER'')"

definition difficulty_json :: "Difficulty \<Rightarrow> jsval" where
  "difficulty_json d = JNum (if d = Diff2 then 2 else 4)"

definition pos_json :: "Pos \<Rightarrow> jsval" where
  "pos_json p = JObj [(''row'', JNum (row p)), (''col'', JNum (col p))]"

fun service_call :: "request \<Rightarrow> bool \<Rightarrow> call" where
  "service_call (Join g) conn = emitAck ''join'' (JObj [(''gameId'', JStr g)]) conn"
| "service_call (GameNew hs d) conn =
     emitAck ''game:new'' (JObj [(''humanSide'', side_json hs), (''difficulty'', difficulty_json d)])
       conn"
| "service_call (ChangeDifficulty g d) conn =
     emitAck ''game:change:diff'' (JObj [(''gameId'', JStr g), (''difficulty'', difficulty_json d)])
       conn"
| "service_call (PlayMove g f t) conn =
     emitAck ''move:play'' (JObj [(''gameId'', JStr g), (''from'', pos_json f), (''to'', pos_json t)])
       conn"

section \<open>Notions the properties are stated with\<close>

text \<open>
  The condition \<^verbatim>\<open>botAlreadyOpened\<close> of the state subscription, and the two pushes
  that end the wait for the bot's opening move.
\<close>

definition opening_shown :: "TablutState \<Rightarrow> bool" where
  "opening_shown st = (humanSide st = DEFENDER \<and> moveHistory st \<noteq> [])"

fun clears_flag :: "event \<Rightarrow> bool" where
  "clears_flag (StatePush st) = opening_shown st"
| "clears_flag (BotThinkingPush active) = (\<not> active)"
| "clears_flag e = False"

text \<open>The events that give the pending request up: a new one, or its failure.\<close>

fun abandons :: "event \<Rightarrow> bool" where
  "abandons StartNewGame = True"
| "abandons (CallRejected (GameNew hs d) err) = True"
| "abandons e = False"

fun is_StatePush :: "event \<Rightarrow> bool" where
  "is_StatePush (StatePush st) = True"
| "is_StatePush e = False"

text \<open>
  Every listed legal move ends on another square than it starts from, as every move of
  the game does.
\<close>

definition moves_leave_origin :: "TablutState \<Rightarrow> bool" where
  "moves_leave_origin st = list_all (\<lambda>m. m_to m \<noteq> m_from m) (legalMoves st)"

text \<open>A log entry that starts with the clock reading \<^verbatim>\<open>[hh:mm:ss]\<close> and a space.\<close>

definition is_digit :: "char \<Rightarrow> bool" where
  "is_digit ch = (ch \<in> set ''0123456789'')"

definition timestamped :: "string \<Rightarrow> bool" where
  "timestamped e =
     (11 \<le> length e \<and> e ! 0 = CHR ''['' \<and> is_digit (e ! 1) \<and> is_digit (e ! 2) \<and>
      e ! 3 = CHR '':'' \<and> is_digit (e ! 4) \<and> is_digit (e ! 5) \<and> e ! 6 = CHR '':'' \<and>
      is_digit (e ! 7) \<and> is_digit (e ! 8) \<and> e ! 9 = CHR '']'' \<and> e ! 10 = CHR '' '')"

subsection \<open>Snapshots used as concrete inputs\<close>

definition at :: "int \<Rightarrow> int \<Rightarrow> Pos" where
  "at r c = \<lparr>row = r, col = c\<rparr>"

text \<open>A game the human defends, before any move.\<close>

definition fresh_snapshot :: TablutState where
  "fresh_snapshot =
     \<lparr>id_state = ''g1'', version = 0, phase = IN_PROGRESS, sideToMove = ATTACKER,
      board = (replicate 81 None)[3 := Some PieceA, 40 := Some PieceK],
      kingHasLeftThrone = False, humanSide = DEFENDER, botSide = ATTACKER,
      attackerIsHuman = False, defenderIsHuman = True, winnerSide = None,
      difficulty = Diff4, legalMoves = [], moveHistory = []\<rparr>"

text \<open>The same game after the bot's opening move from (0,3) to (1,3).\<close>

definition opening_snapshot :: TablutState where
  "opening_snapshot =
     fresh_snapshot
       \<lparr>version := 1, sideToMove := DEFENDER,
        board := (replicate 81 None)[12 := Some PieceA, 40 := Some PieceK],
        moveHistory := [\<lparr>turn = 1, side = ATTACKER, r_from = at 0 3, r_to = at 1 3,
                         captures = [], capturedPieces = []\<rparr>]\<rparr>"

text \<open>A game the human attacks, with one legal move from (3,4) to (4,4).\<close>

definition attacker_snapshot :: TablutState where
  "attacker_snapshot =
     \<lparr>id_state = ''g2'', version = 0, phase = IN_PROGRESS, sideToMove = ATTACKER,
      board = (replicate 81 None)[31 := Some PieceA],
      kingHasLeftThrone = False, humanSide = ATTACKER, botSide = DEFENDER,
      attackerIsHuman = True, defenderIsHuman = False, winnerSide = None,
      difficulty = Diff4,
      legalMoves = [\<lparr>m_from = at 3 4, m_to = at 4 4, capturesPreview = []\<rparr>],
      moveHistory = []\<rparr>"

text \<open>
  The component after the page is opened without a stored game, the attacker's snapshot
  has arrived and the user has clicked the attacker on (3,4).
\<close>

definition selected_app :: App where
  "selected_app =
     run [StatePush attacker_snapshot, CellClick 3 4] (constructor None None False False)"

subsection \<open>Stages of a call\<close>

text \<open>
  The request is out and neither the acknowledgement nor the timer has come; the call
  has settled after the request went out; the call was given up before any request.
\<close>

definition awaiting_ack :: "call \<Rightarrow> bool" where
  "awaiting_ack c =
     (ack_registered c \<and> \<not> settled c \<and> ack_timer c = Some ackTimeoutMs \<and>
      \<not> connecting c \<and> connect_timer c = None \<and> settlements c = [])"

definition settled_call :: "call \<Rightarrow> bool" where
  "settled_call c = (settled c \<and> \<not> connecting c \<and> connect_timer c = None)"

definition failed_call :: "call \<Rightarrow> bool" where
  "failed_call c =
     (\<not> connecting c \<and> connect_timer c = None \<and> \<not> ack_registered c \<and> ack_timer c = None)"

fun is_ack_or_timer :: "socket_event \<Rightarrow> bool" where
  "is_ack_or_timer (Ack resp) = True"
| "is_ack_or_timer AckTimerFires = True"
| "is_ack_or_timer e = False"

section \<open>Properties of the component\<close>

subsection \<open>Runs\<close>

lemma run_append: "run (xs @ ys) s = run ys (run xs s)"
  by (induction xs arbitrary: s) simp_all

lemma run_snoc: "run (xs @ [e]) s = step e (run xs s)"
  by (simp add: run_append)

subsection \<open>The flags under the state subscription\<close>

lemma onState_pending:
  "pendingNewGameWithBotOpening (onState st s) =
     (pendingNewGameWithBotOpening s \<and> \<not> opening_shown st)"
  by (auto simp add: onState_def opening_shown_def Let_def writeIdToUrl_def
        writeGameIdToLocalStorage_def)

lemma onState_loading:
  "loading (onState st s) = (pendingNewGameWithBotOpening s \<and> \<not> opening_shown st)"
  by (auto simp add: onState_def opening_shown_def Let_def writeIdToUrl_def
        writeGameIdToLocalStorage_def)

lemma onState_setupSubmitting:
  "setupSubmitting (onState st s) =
     (pendingNewGameWithBotOpening s \<and> \<not> opening_shown st \<and> setupSubmitting s)"
  by (auto simp add: onState_def opening_shown_def Let_def writeIdToUrl_def
        writeGameIdToLocalStorage_def)

lemma pending_onCellClick:
  "pendingNewGameWithBotOpening (onCellClick r c s) = pendingNewGameWithBotOpening s"
  by (simp add: onCellClick_def runAction_call_def Let_def split: option.splits)

lemma pending_kept:
  assumes "pendingNewGameWithBotOpening s" and "\<not> clears_flag e" and "\<not> abandons e"
  shows "pendingNewGameWithBotOpening (step e s)"
proof (cases e)
  case (CallResolved req data)
  with assms show ?thesis
    by (cases req) (simp_all add: startNewGame_resolved_def runAction_resolved_def)
next
  case (CallRejected req err)
  with assms show ?thesis by (cases req) (simp_all add: runAction_rejected_def)
next
  case (StatePush st)
  with assms show ?thesis by (simp add: onState_pending)
next
  case (CellClick r c)
  with assms show ?thesis by (simp add: pending_onCellClick)
next
  case (DifficultyChange d)
  with assms show ?thesis
    by (simp add: onDifficultyChange_def runAction_call_def Let_def split: option.splits)
qed (use assms in \<open>simp_all add: onMoveResult_def onTurnNote_def onBotThinking_def
       onGameOver_def pushLog_def onNewGameClick_def onSelectHumanSide_def\<close>)

lemma pending_kept_run:
  "pendingNewGameWithBotOpening s \<Longrightarrow> \<forall>x\<in>set pre. \<not> clears_flag x \<and> \<not> abandons x \<Longrightarrow>
   pendingNewGameWithBotOpening (run pre s)"
  by (induction pre arbitrary: s) (simp_all add: pending_kept)

lemma cleared_by:
  "pendingNewGameWithBotOpening s \<Longrightarrow> clears_flag e \<Longrightarrow>
   \<not> pendingNewGameWithBotOpening (step e s) \<and> \<not> loading (step e s) \<and>
   \<not> setupSubmitting (step e s)"
  by (cases e) (simp_all add: onState_pending onState_loading onState_setupSubmitting
        onBotThinking_def)

lemma cleared_from_anywhere:
  "clears_flag e \<Longrightarrow> \<not> pendingNewGameWithBotOpening (step e s)"
  by (cases e) (simp_all add: onState_pending onBotThinking_def)

lemma one_entry_clears:
  "humanSide st = DEFENDER \<Longrightarrow> length (moveHistory st) = 1 \<Longrightarrow> clears_flag (StatePush st)"
  by (cases "moveHistory st") (simp_all add: opening_shown_def)

text \<open>
  C1. Once a new game has been requested with the bot to open, so that
  \<^verbatim>\<open>pendingNewGameWithBotOpening\<close> is set, the flag stays set through every event
  that is neither one of the two clearing pushes nor gives the request up (another
  \<^verbatim>\<open>startNewGame\<close>, or the failure of \<^verbatim>\<open>game:new\<close>); the first clearing push (a
  snapshot with \<^verbatim>\<open>humanSide = DEFENDER\<close> and a non-empty move history, or
  \<^verbatim>\<open>bot:thinking\<close> turning inactive) then clears it together with \<^verbatim>\<open>loading\<close> and
  \<^verbatim>\<open>setupSubmitting\<close>. A snapshot with \<^verbatim>\<open>humanSide = DEFENDER\<close> and exactly one history
  entry is such a push. The flag itself is off after a clearing push whatever came
  before it, also when the request was given up in between.
\<close>

theorem pending_bot_opening_cleared_by_first:
  assumes "pendingNewGameWithBotOpening s"
    and "\<forall>x\<in>set pre. \<not> clears_flag x \<and> \<not> abandons x"
    and "clears_flag e"
  shows "pendingNewGameWithBotOpening (run pre s) \<and>
         \<not> pendingNewGameWithBotOpening (run (pre @ [e]) s) \<and>
         \<not> loading (run (pre @ [e]) s) \<and>
         \<not> setupSubmitting (run (pre @ [e]) s) \<and>
         (\<forall>st. humanSide st = DEFENDER \<and> length (moveHistory st) = 1 \<longrightarrow>
               \<not> pendingNewGameWithBotOpening (run (pre @ [StatePush st]) s) \<and>
               \<not> loading (run (pre @ [StatePush st]) s)) \<and>
         \<not> pendingNewGameWithBotOpening (run (any @ [e]) s)"
proof -
  have kept: "pendingNewGameWithBotOpening (run pre s)"
    using assms(1,2) by (rule pending_kept_run)
  have first: "\<not> pendingNewGameWithBotOpening (step x (run pre s)) \<and>
               \<not> loading (step x (run pre s)) \<and> \<not> setupSubmitting (step x (run pre s))"
    if "clears_flag x" for x
    using kept that by (rule cleared_by)
  show ?thesis
    using kept first [OF assms(3)] first [OF one_entry_clears]
      cleared_from_anywhere [OF assms(3), of "run any s"]
    by (simp add: run_snoc)
qed

theorem pending_bot_opening_cleared_by_first_witness:
  "pendingNewGameWithBotOpening (startNewGame (constructor None None False False)) \<and>
   loading (startNewGame (constructor None None False False)) \<and>
   pendingNewGameWithBotOpening
     (run [BotThinkingPush True, StatePush fresh_snapshot]
        (startNewGame (constructor None None False False))) \<and>
   \<not> pendingNewGameWithBotOpening
     (run ([BotThinkingPush True, StatePush fresh_snapshot] @ [StatePush opening_snapshot])
        (startNewGame (constructor None None False False))) \<and>
   \<not> loading
     (run ([BotThinkingPush True, StatePush fresh_snapshot] @ [StatePush opening_snapshot])
        (startNewGame (constructor None None False False)))"
proof -
  have start: "pendingNewGameWithBotOpening (startNewGame (constructor None None False False))"
    by (simp add: startNewGame_def startNewGame_reset_def constructor_def bootstrapGame_def
          new_App_def readIdFromUrl_def readGameIdFromLocalStorage_def Let_def)
  have busy: "loading (startNewGame (constructor None None False False))"
    by (simp add: startNewGame_def startNewGame_reset_def constructor_def bootstrapGame_def
          new_App_def readIdFromUrl_def readGameIdFromLocalStorage_def Let_def)
  have quiet: "\<forall>x\<in>set [BotThinkingPush True, StatePush fresh_snapshot].
                 \<not> clears_flag x \<and> \<not> abandons x"
    by (simp add: opening_shown_def fresh_snapshot_def)
  have last: "clears_flag (StatePush opening_snapshot)"
    by (simp add: opening_shown_def opening_snapshot_def fresh_snapshot_def)
  show ?thesis
    using start busy pending_bot_opening_cleared_by_first [OF start quiet last]
    by simp
qed

subsection \<open>What an accepted snapshot does\<close>

lemma onState_fields:
  "state (onState st s) = Some st"
  "message (onState st s) = []"
  "selectedFrom (onState st s) = None"
  "url_g (onState st s) = Some (id_state st)"
  "ls_gameId (onState st s) = (if ls_setItem_throws s then ls_gameId s else Some (id_state st))"
  "currentStateGameId (onState st s) = Some (id_state st)"
  "logs (onState st s) = (if gameChanged st s then buildLogsFromHistory st else logs s)"
  "requests (onState st s) = requests s"
  by (simp_all add: onState_def Let_def writeIdToUrl_def writeGameIdToLocalStorage_def)

text \<open>
  C2 (as amended). Every snapshot the state subscription accepts, whether or not the game
  identifier changed, empties \<^verbatim>\<open>message\<close>, sets \<^verbatim>\<open>selectedFrom\<close> to null and writes
  the identifier to the query parameter of the URL; the identifier is written to local
  storage unless \<^verbatim>\<open>setItem\<close> throws, in which case the stored value stays as it was.
  \<^verbatim>\<open>loading\<close> ends up on exactly when the bot's opening is still awaited, and
  \<^verbatim>\<open>setupSubmitting\<close> is kept only in that case and turned off otherwise.
\<close>

theorem accepted_snapshot_effects:
  "message (onState st s) = [] \<and>
   selectedFrom (onState st s) = None \<and>
   url_g (onState st s) = Some (id_state st) \<and>
   ls_gameId (onState st s) = (if ls_setItem_throws s then ls_gameId s else Some (id_state st)) \<and>
   loading (onState st s) = (pendingNewGameWithBotOpening s \<and> \<not> opening_shown st) \<and>
   setupSubmitting (onState st s) =
     (pendingNewGameWithBotOpening s \<and> \<not> opening_shown st \<and> setupSubmitting s)"
  by (simp add: onState_fields onState_loading onState_setupSubmitting)

text \<open>
  The claim as stated fails where local storage refuses the write: the URL carries the
  identifier of the accepted snapshot, local storage does not.
\<close>

theorem snapshot_not_stored_when_setItem_throws:
  "url_g (step (StatePush fresh_snapshot) (constructor None None False True)) = Some ''g1'' \<and>
   ls_gameId (step (StatePush fresh_snapshot) (constructor None None False True)) \<noteq> Some ''g1''"
  by (simp add: onState_fields constructor_def bootstrapGame_def new_App_def
        readIdFromUrl_def readGameIdFromLocalStorage_def Let_def fresh_snapshot_def)

subsection \<open>Where the held snapshot comes from\<close>

lemma state_onCellClick: "state (onCellClick r c s) = state s"
  by (simp add: onCellClick_def runAction_call_def Let_def split: option.splits)

lemma state_step:
  "state (step e s) = (case e of StatePush st \<Rightarrow> Some st | StartNewGame \<Rightarrow> None | _ \<Rightarrow> state s)"
proof (cases e)
  case (CallResolved req data)
  then show ?thesis
    by (cases req) (simp_all add: startNewGame_resolved_def runAction_resolved_def)
next
  case (CallRejected req err)
  then show ?thesis
    by (cases req) (simp_all add: startNewGame_rejected_def runAction_rejected_def)
next
  case (DifficultyChange d)
  then show ?thesis
    by (simp add: onDifficultyChange_def runAction_call_def Let_def split: option.splits)
qed (simp_all add: onState_fields state_onCellClick onMoveResult_def onTurnNote_def
      onBotThinking_def onGameOver_def pushLog_def onNewGameClick_def onSelectHumanSide_def
      startNewGame_def startNewGame_reset_def Let_def)

lemma resolved_ignores_data:
  "step (CallResolved req d) s = step (CallResolved req d') s"
  by (cases req) simp_all

lemma trim_g1: "trim ''g1'' = ''g1''"
  by (simp add: trim_def trimStart.simps [of "''g1''"] trimEnd.simps [of "''g1''"] white_space_def)

lemma state_constructor: "state (constructor g stored a b) = None"
  by (simp add: constructor_def bootstrapGame_def new_App_def Let_def runAction_call_def
        split: option.splits)

text \<open>
  C5 (as amended). The held snapshot is replaced by exactly one source, the \<^verbatim>\<open>state\<close>
  push, whose snapshot is swapped in whole; \<^verbatim>\<open>startNewGame\<close> resets it to null, and no
  other event touches it. The value a call (\<^verbatim>\<open>join\<close>, \<^verbatim>\<open>game:new\<close>,
  \<^verbatim>\<open>game:change:diff\<close>, \<^verbatim>\<open>move:play\<close>) resolves with is discarded: the component
  after the resolution does not depend on it, and the held snapshot is unchanged.
\<close>

theorem canonical_state_sources:
  "state (step e s) =
     (case e of StatePush st \<Rightarrow> Some st | StartNewGame \<Rightarrow> None | _ \<Rightarrow> state s) \<and>
   step (CallResolved req d) s = step (CallResolved req d') s \<and>
   state (step (CallResolved req d) s) = state s"
  using state_step [of e s] state_step [of "CallResolved req d" s] resolved_ignores_data
  by simp

text \<open>
  The claim as stated fails: the page is opened with \<^verbatim>\<open>?g=g1\<close>, the component joins,
  the call resolves with a snapshot, and that snapshot is not held afterwards.
\<close>

theorem resolved_call_not_accepted:
  "requests (constructor (Some ''g1'') None False False) = [Join ''g1''] \<and>
   state (step (CallResolved (Join ''g1'') opening_snapshot)
            (constructor (Some ''g1'') None False False)) \<noteq> Some opening_snapshot"
  by (simp add: state_step state_constructor constructor_def bootstrapGame_def new_App_def
        readIdFromUrl_def readGameIdFromLocalStorage_def Let_def runAction_call_def
        runAction_resolved_def trim_g1)

subsection \<open>Failing calls\<close>

text \<open>
  C8 (as amended). Every failing call clears \<^verbatim>\<open>loading\<close>. A failed \<^verbatim>\<open>game:new\<close>
  also clears \<^verbatim>\<open>setupSubmitting\<close> and \<^verbatim>\<open>pendingNewGameWithBotOpening\<close> and reopens the
  setup prompt; a failed \<^verbatim>\<open>join\<close>, difficulty change or move leaves these three as they
  were.
\<close>

theorem failure_paths:
  "\<not> loading (step (CallRejected req err) s) \<and>
   (case req of
      GameNew hs d \<Rightarrow>
        \<not> setupSubmitting (step (CallRejected req err) s) \<and>
        \<not> pendingNewGameWithBotOpening (step (CallRejected req err) s) \<and>
        setupOpen (step (CallRejected req err) s)
    | _ \<Rightarrow>
        setupSubmitting (step (CallRejected req err) s) = setupSubmitting s \<and>
        pendingNewGameWithBotOpening (step (CallRejected req err) s) =
          pendingNewGameWithBotOpening s \<and>
        setupOpen (step (CallRejected req err) s) = setupOpen s)"
  by (cases req) (simp_all add: startNewGame_rejected_def runAction_rejected_def)

text \<open>
  The claim as stated fails: a game is requested with the bot to open, its first
  snapshot arrives before the opening move, the user changes the difficulty and that
  call fails; \<^verbatim>\<open>setupSubmitting\<close> is still set afterwards.
\<close>

theorem submitting_survives_failed_action:
  "requests (run [StartNewGame, StatePush fresh_snapshot, DifficultyChange Diff2]
               (constructor None None False False)) =
     [GameNew DEFENDER Diff4, ChangeDifficulty ''g1'' Diff2] \<and>
   setupSubmitting
     (run [StartNewGame, StatePush fresh_snapshot, DifficultyChange Diff2,
           CallRejected (ChangeDifficulty ''g1'' Diff2) (JError ''ack_timeout:game:change:diff'')]
        (constructor None None False False))"
  by (simp add: constructor_def bootstrapGame_def new_App_def
        readIdFromUrl_def readGameIdFromLocalStorage_def Let_def runAction_call_def
        startNewGame_def startNewGame_reset_def onState_def gameChanged_def
        writeIdToUrl_def writeGameIdToLocalStorage_def fresh_snapshot_def
        onDifficultyChange_def runAction_rejected_def buildLogsFromHistory_def)

subsection \<open>Clicks on the board\<close>

lemma Pos_eq_iff:
  "(p = \<lparr>row = r, col = c\<rparr>) = (row p = r \<and> col p = c)"
  "(\<lparr>row = r, col = c\<rparr> = p) = (row p = r \<and> col p = c)"
  by (cases p; auto)+

lemma click_target_iff:
  "list_ex (\<lambda>p. row p = r \<and> col p = c) ps = (at r c \<in> set ps)"
  by (induction ps) (auto simp add: at_def Pos_eq_iff)

lemma click_ignored: "\<not> humanTurn s \<Longrightarrow> onCellClick r c s = s"
  by (simp add: onCellClick_def split: option.splits)

lemma click_plays:
  assumes "humanTurn s" and "state s = Some st" and "selectedFrom s = Some f"
    and "at r c \<in> set (selectedTargets s)" and "f \<noteq> at r c"
  shows "onCellClick r c s =
           runAction_call (PlayMove (id_state st) f (at r c)) (s\<lparr>selectedFrom := None\<rparr>)"
proof -
  have "\<not> (row f = r \<and> col f = c)"
    using assms(5) by (simp add: at_def Pos_eq_iff)
  moreover have "list_ex (\<lambda>p. row p = r \<and> col p = c) (selectedTargets s)"
    using assms(4) by (simp add: click_target_iff)
  ultimately show ?thesis
    using assms(1,2,3) by (auto simp add: onCellClick_def Let_def at_def)
qed

lemma humanTurn_cong: "state s' = state s \<Longrightarrow> humanTurn s' = humanTurn s"
  by (simp add: humanTurn_def)

lemma sel_onCellClick:
  "selectedFrom s \<noteq> None \<longrightarrow> humanTurn s \<Longrightarrow>
   selectedFrom (onCellClick r c s) \<noteq> None \<longrightarrow> humanTurn (onCellClick r c s)"
  by (auto simp add: humanTurn_cong [OF state_onCellClick])
     (auto simp add: onCellClick_def Let_def runAction_call_def split: option.splits if_splits)

lemma sel_step:
  assumes "selectedFrom s \<noteq> None \<longrightarrow> humanTurn s"
  shows "selectedFrom (step e s) \<noteq> None \<longrightarrow> humanTurn (step e s)"
proof (cases e)
  case (CallResolved req data)
  with assms show ?thesis
    by (cases req) (simp_all add: startNewGame_resolved_def runAction_resolved_def humanTurn_def)
next
  case (CallRejected req err)
  with assms show ?thesis
    by (cases req) (simp_all add: startNewGame_rejected_def runAction_rejected_def humanTurn_def)
next
  case (DifficultyChange d)
  with assms show ?thesis
    by (simp add: onDifficultyChange_def runAction_call_def Let_def humanTurn_def split: option.splits)
next
  case (CellClick r c)
  with assms show ?thesis by (simp add: sel_onCellClick)
qed (use assms in \<open>simp_all add: onState_fields onMoveResult_def onTurnNote_def
      onBotThinking_def onGameOver_def pushLog_def onNewGameClick_def onSelectHumanSide_def
      startNewGame_def startNewGame_reset_def Let_def humanTurn_def\<close>)

lemma sel_run:
  "selectedFrom s \<noteq> None \<longrightarrow> humanTurn s \<Longrightarrow>
   selectedFrom (run es s) \<noteq> None \<longrightarrow> humanTurn (run es s)"
  by (induction es arbitrary: s) (simp_all add: sel_step)

lemma sel_constructor: "selectedFrom (constructor g stored a b) = None"
  by (simp add: constructor_def bootstrapGame_def new_App_def Let_def runAction_call_def
        split: option.splits)

lemma constructor_plain:
  "constructor None None False False =
     \<lparr>state = None, loading = False, message = [], logs = [],
      setupOpen = True, setupSubmitting = False, setupHumanSide = DEFENDER,
      setupDifficulty = Diff4, selectedFrom = None, currentStateGameId = None,
      pendingNewGameWithBotOpening = False,
      url_g = None, ls_gameId = None, ls_getItem_throws = False,
      ls_setItem_throws = False, requests = []\<rparr>"
  by (simp add: constructor_def bootstrapGame_def new_App_def Let_def
        readIdFromUrl_def readGameIdFromLocalStorage_def)

lemma selected_app_fields:
  "state selected_app = Some attacker_snapshot"
  "selectedFrom selected_app = Some (at 3 4)"
  "requests selected_app = []"
  by (simp_all add: selected_app_def constructor_plain onState_def Let_def gameChanged_def
        writeIdToUrl_def writeGameIdToLocalStorage_def onCellClick_def humanTurn_def
        attacker_snapshot_def pieceAt_def isHumanPiece_def hasMoveFrom_def at_def)

lemma Pos_fields_eq: "row p = row q \<Longrightarrow> col p = col q \<Longrightarrow> p = q" for p q :: Pos
  by (cases p; cases q; simp)

lemma target_not_origin:
  assumes "state s = Some st" and "moves_leave_origin st" and "selectedFrom s = Some f"
    and "at r c \<in> set (selectedTargets s)"
  shows "f \<noteq> at r c"
proof
  assume same: "f = at r c"
  from assms(1,3,4) obtain m where m: "m \<in> set (legalMoves st)"
    "row (m_from m) = row f" "col (m_from m) = col f" "m_to m = at r c"
    by (auto simp add: selectedTargets_def)
  then have "m_from m = f"
    by (simp add: Pos_fields_eq)
  with m(4) same have "m_to m = m_from m"
    by simp
  with m(1) assms(2) show False
    by (simp add: moves_leave_origin_def list_all_iff)
qed

lemma click_origin:
  "humanTurn s \<Longrightarrow> selectedFrom s = Some (at r c) \<Longrightarrow>
   onCellClick r c s = s\<lparr>selectedFrom := None\<rparr>"
  by (simp add: onCellClick_def humanTurn_def Let_def at_def split: option.splits)

text \<open>
  C4. A click while it is not the human's turn (no snapshot held, or \<^verbatim>\<open>sideToMove\<close>
  differs from \<^verbatim>\<open>humanSide\<close>, or the phase is not \<^verbatim>\<open>IN_PROGRESS\<close>) leaves the whole
  component as it was, so the selection is unchanged and no request is issued. While a
  selection is held and the listed legal moves each end on another square than they
  start from, a click on a square among the legal destinations of the selected origin
  first sets the selection to null and then, from that state, issues \<^verbatim>\<open>move:play\<close>
  with the origin and the clicked square, which \<^verbatim>\<open>playMove\<close> emits as such; the same
  holds for any snapshot when the clicked destination is not the origin. A click on the
  selected origin itself only clears the selection. In every state the component
  reaches, a held selection implies that it is the human's turn.
\<close>

theorem cell_click:
  "(\<not> humanTurn s \<longrightarrow> onCellClick r c s = s) \<and>
   (humanTurn s \<and> state s = Some st \<and> selectedFrom s = Some f \<and>
    at r c \<in> set (selectedTargets s) \<and> (moves_leave_origin st \<or> f \<noteq> at r c) \<longrightarrow>
      onCellClick r c s =
        runAction_call (PlayMove (id_state st) f (at r c)) (s\<lparr>selectedFrom := None\<rparr>) \<and>
      selectedFrom (onCellClick r c s) = None \<and>
      requests (onCellClick r c s) = requests s @ [PlayMove (id_state st) f (at r c)] \<and>
      emitted (service_call (PlayMove (id_state st) f (at r c)) True) =
        [(''move:play'',
          JObj [(''gameId'', JStr (id_state st)), (''from'', pos_json f),
                (''to'', pos_json (at r c))])]) \<and>
   (humanTurn s \<and> selectedFrom s = Some (at r c) \<longrightarrow>
      onCellClick r c s = s\<lparr>selectedFrom := None\<rparr>) \<and>
   (selectedFrom (run es (constructor g stored a b)) \<noteq> None \<longrightarrow>
      humanTurn (run es (constructor g stored a b)))"
proof -
  have reach: "selectedFrom (run es (constructor g stored a b)) \<noteq> None \<longrightarrow>
        humanTurn (run es (constructor g stored a b))"
    by (rule sel_run) (simp add: sel_constructor)
  have plays: "onCellClick r c s =
        runAction_call (PlayMove (id_state st) f (at r c)) (s\<lparr>selectedFrom := None\<rparr>)"
    if "humanTurn s" and "state s = Some st" and "selectedFrom s = Some f"
      and "at r c \<in> set (selectedTargets s)" and "moves_leave_origin st \<or> f \<noteq> at r c"
  proof -
    from that have "f \<noteq> at r c"
      by (auto dest: target_not_origin)
    with that show ?thesis
      by (simp add: click_plays)
  qed
  have sent: "emitted (service_call (PlayMove (id_state st) f (at r c)) True) =
        [(''move:play'',
          JObj [(''gameId'', JStr (id_state st)), (''from'', pos_json f),
                (''to'', pos_json (at r c))])]"
    by (simp add: emitAck_def emitAck_connected_def Let_def)
  show ?thesis
    using reach sent
    by (auto simp add: click_ignored click_origin plays runAction_call_def)
qed

theorem cell_click_witness:
  "\<not> humanTurn (constructor None None False False) \<and>
   onCellClick 3 4 (constructor None None False False) = constructor None None False False \<and>
   selectedFrom (run [StatePush attacker_snapshot, CellClick 3 4]
                   (constructor None None False False)) \<noteq> None \<and>
   humanTurn selected_app \<and> state selected_app = Some attacker_snapshot \<and>
   moves_leave_origin attacker_snapshot \<and>
   selectedFrom selected_app = Some (at 3 4) \<and>
   at 4 4 \<in> set (selectedTargets selected_app) \<and>
   selectedFrom (onCellClick 4 4 selected_app) = None \<and>
   requests (onCellClick 4 4 selected_app) = [PlayMove ''g2'' (at 3 4) (at 4 4)] \<and>
   onCellClick 3 4 selected_app = selected_app\<lparr>selectedFrom := None\<rparr>"
proof -
  have idle: "\<not> humanTurn (constructor None None False False)"
    by (simp add: humanTurn_def state_constructor)
  have held: "selectedFrom (run [StatePush attacker_snapshot, CellClick 3 4]
                              (constructor None None False False)) \<noteq> None"
    using selected_app_fields(2) by (simp only: selected_app_def) simp
  have turn: "humanTurn selected_app"
    using held
      cell_click [of _ _ _ _ _ "[StatePush attacker_snapshot, CellClick 3 4]" None None False False]
    by (simp only: selected_app_def) blast
  have target: "at 4 4 \<in> set (selectedTargets selected_app)"
    by (simp add: selectedTargets_def selected_app_fields attacker_snapshot_def at_def)
  have proper: "moves_leave_origin attacker_snapshot"
    by (simp add: moves_leave_origin_def attacker_snapshot_def at_def)
  have played:
    "selectedFrom (onCellClick 4 4 selected_app) = None \<and>
     requests (onCellClick 4 4 selected_app) =
       requests selected_app @ [PlayMove (id_state attacker_snapshot) (at 3 4) (at 4 4)]"
    using turn target proper selected_app_fields(1,2)
      cell_click [of selected_app 4 4 attacker_snapshot "at 3 4"]
    by blast
  have ignored:
    "onCellClick 3 4 (constructor None None False False) = constructor None None False False"
    using idle cell_click [of "constructor None None False False" 3 4] by blast
  have dropped: "onCellClick 3 4 selected_app = selected_app\<lparr>selectedFrom := None\<rparr>"
    using turn selected_app_fields(2) cell_click [of selected_app 3 4] by blast
  show ?thesis
    using idle held turn target proper played ignored dropped selected_app_fields
    by (simp add: attacker_snapshot_def)
qed

subsection \<open>The log\<close>

lemma history_lines_eq: "history_lines mvs acc = acc @ map history_line mvs"
  by (induction mvs arbitrary: acc) simp_all

lemma buildLogs_eq:
  "buildLogsFromHistory st = take 40 (rev (map history_line (moveHistory st)))"
  by (simp add: buildLogsFromHistory_def history_lines_eq)

lemma logs_onCellClick: "logs (onCellClick r c s) = logs s"
  by (simp add: onCellClick_def runAction_call_def Let_def split: option.splits)

lemma logs_step:
  "logs (step e s) =
     (case e of
        StatePush st \<Rightarrow>
          if gameChanged st s then take 40 (rev (map history_line (moveHistory st))) else logs s
      | MoveResultPush now mv \<Rightarrow> take 40 (stamp now (move_result_line mv) # logs s)
      | TurnNotePush now msg \<Rightarrow> take 40 (stamp now msg # logs s)
      | GameOverPush now w \<Rightarrow>
          take 40 (stamp now (''Fin de partida. Ganador: '' @ side_label w) # logs s)
      | StartNewGame \<Rightarrow> []
      | _ \<Rightarrow> logs s)"
proof (cases e)
  case (CallResolved req data)
  then show ?thesis
    by (cases req) (simp_all add: startNewGame_resolved_def runAction_resolved_def)
next
  case (CallRejected req err)
  then show ?thesis
    by (cases req) (simp_all add: startNewGame_rejected_def runAction_rejected_def)
next
  case (DifficultyChange d)
  then show ?thesis
    by (simp add: onDifficultyChange_def runAction_call_def Let_def split: option.splits)
qed (simp_all add: onState_fields buildLogs_eq logs_onCellClick onMoveResult_def onTurnNote_def
      onBotThinking_def onGameOver_def pushLog_def onNewGameClick_def onSelectHumanSide_def
      startNewGame_def startNewGame_reset_def Let_def)

lemma logs_step_bound: "length (logs s) \<le> 40 \<Longrightarrow> length (logs (step e s)) \<le> 40"
  by (simp add: logs_step split: event.splits)

lemma logs_run_bound: "length (logs s) \<le> 40 \<Longrightarrow> length (logs (run es s)) \<le> 40"
  by (induction es arbitrary: s) (simp_all add: logs_step_bound)

lemma logs_constructor: "logs (constructor g stored a b) = []"
  by (simp add: constructor_def bootstrapGame_def new_App_def Let_def runAction_call_def
        split: option.splits)

lemma is_digit_digit_char: "is_digit (digit_char n)"
proof -
  have "n mod 10 < length ''0123456789''" by simp
  then have "''0123456789'' ! (n mod 10) \<in> set ''0123456789''" by (rule nth_mem)
  then show ?thesis by (simp only: is_digit_def digit_char_def)
qed

lemma show_nat_small: "n < 10 \<Longrightarrow> show_nat n = [digit_char n]"
  by (subst show_nat.simps) simp

lemma two_digits:
  assumes "n < 100"
  shows "padStart2 (show_nat n) = [digit_char (n div 10), digit_char (n mod 10)]"
proof (cases "n < 10")
  case True
  then show ?thesis by (simp add: show_nat_small padStart2_def digit_char_def)
next
  case False
  with assms have "n div 10 < 10" by simp
  then have "show_nat n = [digit_char (n div 10), digit_char (n mod 10)]"
    using False by (subst show_nat.simps) (simp add: show_nat_small)
  then show ?thesis by (simp add: padStart2_def)
qed

lemma stamp_timestamped: "timestamped (stamp now msg)"
proof -
  have "getHours now < 100" "getMinutes now < 100" "getSeconds now < 100"
    by (simp_all add: getHours_def getMinutes_def getSeconds_def less_trans [OF mod_less_divisor])
  then show ?thesis
    by (simp add: stamp_def timestamped_def two_digits is_digit_digit_char)
qed

lemma history_line_not_timestamped: "\<not> timestamped (history_line mv)"
  by (simp add: history_line_def timestamped_def)

lemma show_nat_1: "show_nat (Suc 0) = ''1''" "show_nat 0 = ''0''" "show_nat 3 = ''3''"
  by (simp_all add: show_nat_small digit_char_def)

text \<open>
  C3 (as amended). From construction on, whatever happens, the log never holds more than
  40 entries. Every event changes it in one of these ways only: a \<^verbatim>\<open>state\<close> push
  replaces it by the lines of the snapshot's move history, last move first, cut to 40,
  when the game identifier changed, and leaves it alone otherwise; the pushes
  \<^verbatim>\<open>move:result\<close>, \<^verbatim>\<open>turn:note\<close> and \<^verbatim>\<open>game:over\<close> put one new entry in
  front of the others, cut to 40; \<^verbatim>\<open>startNewGame\<close> empties it. The entries the push
  handlers add start with the clock reading \<^verbatim>\<open>[hh:mm:ss]\<close>; the lines rebuilt from the
  move history do not: they start with the turn number.
\<close>

theorem log_entries:
  "length (logs (run es (constructor g stored a b))) \<le> 40 \<and>
   logs (step e s) =
     (case e of
        StatePush st \<Rightarrow>
          if gameChanged st s then take 40 (rev (map history_line (moveHistory st))) else logs s
      | MoveResultPush now mv \<Rightarrow> take 40 (stamp now (move_result_line mv) # logs s)
      | TurnNotePush now msg \<Rightarrow> take 40 (stamp now msg # logs s)
      | GameOverPush now w \<Rightarrow>
          take 40 (stamp now (''Fin de partida. Ganador: '' @ side_label w) # logs s)
      | StartNewGame \<Rightarrow> []
      | _ \<Rightarrow> logs s) \<and>
   timestamped (stamp now' msg') \<and>
   \<not> timestamped (history_line mv')"
  using logs_run_bound [of "constructor g stored a b" es] logs_step [of e s]
  by (simp add: logs_constructor stamp_timestamped history_line_not_timestamped)

text \<open>
  The claim as stated fails: the single entry rebuilt from a snapshot's move history
  carries no timestamp.
\<close>

theorem rebuilt_entry_not_timestamped:
  "logs (step (StatePush opening_snapshot) (constructor None None False False)) =
     [''#1 Atacante: (0,3) -> (1,3)''] \<and>
   \<not> timestamped ''#1 Atacante: (0,3) -> (1,3)''"
  by (simp add: onState_fields buildLogs_eq gameChanged_def constructor_def bootstrapGame_def new_App_def
        readIdFromUrl_def readGameIdFromLocalStorage_def Let_def opening_snapshot_def
        fresh_snapshot_def history_line_def show_int_def show_nat_1 side_label_def pos_text_def
        at_def capture_suffix_def timestamped_def)

subsection \<open>A new game\<close>

lemma gid_onCellClick: "currentStateGameId (onCellClick r c s) = currentStateGameId s"
  by (simp add: onCellClick_def runAction_call_def Let_def split: option.splits)

lemma gid_step:
  assumes "\<not> is_StatePush e" and "currentStateGameId s = None"
  shows "currentStateGameId (step e s) = None"
proof (cases e)
  case (CallResolved req data)
  with assms show ?thesis
    by (cases req) (simp_all add: startNewGame_resolved_def runAction_resolved_def)
next
  case (CallRejected req err)
  with assms show ?thesis
    by (cases req) (simp_all add: startNewGame_rejected_def runAction_rejected_def)
next
  case (DifficultyChange d)
  with assms show ?thesis
    by (simp add: onDifficultyChange_def runAction_call_def Let_def split: option.splits)
qed (use assms in \<open>simp_all add: gid_onCellClick onMoveResult_def onTurnNote_def
      onBotThinking_def onGameOver_def pushLog_def onNewGameClick_def onSelectHumanSide_def
      startNewGame_def startNewGame_reset_def Let_def\<close>)

lemma gid_run:
  "\<forall>x\<in>set es. \<not> is_StatePush x \<Longrightarrow> currentStateGameId s = None \<Longrightarrow>
   currentStateGameId (run es s) = None"
  by (induction es arbitrary: s) (simp_all add: gid_step)

lemma opening_history_lines:
  "take 40 (rev (map history_line (moveHistory opening_snapshot))) =
     [''#1 Atacante: (0,3) -> (1,3)'']"
  by (simp add: opening_snapshot_def fresh_snapshot_def history_line_def show_int_def
        show_nat_1 side_label_def pos_text_def at_def capture_suffix_def)

text \<open>
  C10. \<^verbatim>\<open>startNewGame\<close> is its reset followed by the \<^verbatim>\<open>game:new\<close> call: the reset
  leaves the held snapshot null, the logs empty, the selection null and the remembered
  identifier null, and sends nothing itself. Whatever happens afterwards before the next
  snapshot, that snapshot is classified as a game change and the logs become exactly the
  lines of its move history, one per record, last move first, cut to 40, which is what
  \<^verbatim>\<open>buildLogsFromHistory\<close> returns.
\<close>

theorem new_game_resets_before_request:
  assumes "\<forall>x\<in>set es. \<not> is_StatePush x"
  shows "startNewGame s =
           (startNewGame_reset s)
             \<lparr>requests := requests s @ [GameNew (setupHumanSide s) (setupDifficulty s)]\<rparr> \<and>
         state (startNewGame_reset s) = None \<and>
         logs (startNewGame_reset s) = [] \<and>
         selectedFrom (startNewGame_reset s) = None \<and>
         currentStateGameId (startNewGame_reset s) = None \<and>
         requests (startNewGame_reset s) = requests s \<and>
         gameChanged st (run es (startNewGame s)) \<and>
         logs (run (es @ [StatePush st]) (startNewGame s)) =
           take 40 (rev (map history_line (moveHistory st))) \<and>
         buildLogsFromHistory st = take 40 (rev (map history_line (moveHistory st)))"
proof -
  have "currentStateGameId (startNewGame s) = None"
    by (simp add: startNewGame_def startNewGame_reset_def Let_def)
  with assms have none: "currentStateGameId (run es (startNewGame s)) = None"
    by (simp add: gid_run)
  then have changed: "gameChanged st (run es (startNewGame s))"
    by (simp add: gameChanged_def)
  have "logs (run (es @ [StatePush st]) (startNewGame s)) =
          take 40 (rev (map history_line (moveHistory st)))"
    using changed by (simp add: run_snoc onState_fields buildLogs_eq)
  with changed show ?thesis
    by (simp add: startNewGame_def startNewGame_reset_def Let_def buildLogs_eq)
qed

theorem new_game_resets_before_request_witness:
  "gameChanged opening_snapshot
     (run [TurnNotePush 0 ''hola'', BotThinkingPush True]
        (startNewGame (onState fresh_snapshot (constructor None None False False)))) \<and>
   logs (run ([TurnNotePush 0 ''hola'', BotThinkingPush True] @ [StatePush opening_snapshot])
          (startNewGame (onState fresh_snapshot (constructor None None False False)))) =
     [''#1 Atacante: (0,3) -> (1,3)'']"
proof -
  have h: "\<forall>x\<in>set [TurnNotePush 0 ''hola'', BotThinkingPush True]. \<not> is_StatePush x"
    by simp
  have both:
    "gameChanged opening_snapshot
       (run [TurnNotePush 0 ''hola'', BotThinkingPush True]
          (startNewGame (onState fresh_snapshot (constructor None None False False)))) \<and>
     logs (run ([TurnNotePush 0 ''hola'', BotThinkingPush True] @ [StatePush opening_snapshot])
            (startNewGame (onState fresh_snapshot (constructor None None False False)))) =
       take 40 (rev (map history_line (moveHistory opening_snapshot)))"
    using new_game_resets_before_request
            [OF h, of "onState fresh_snapshot (constructor None None False False)"
               opening_snapshot]
    by blast
  then show ?thesis
    by (simp only: opening_history_lines)
qed

section \<open>Properties of the socket service\<close>

lemmas call_defs = emitAck_def emitAck_connected_def emitAck_failed_def cleanup_def settle_def

lemma awaiting_start:
  "awaiting_ack (emitAck ev p True)"
  "awaiting_ack (handle Connect (emitAck ev p False))"
  by (simp_all add: awaiting_ack_def call_defs Let_def)

lemma event_name_start:
  "event_name (emitAck ev p True) = ev"
  "event_name (handle Connect (emitAck ev p False)) = ev"
  by (simp_all add: call_defs Let_def)

lemma awaiting_kept:
  "awaiting_ack c \<Longrightarrow> \<not> is_ack_or_timer e \<Longrightarrow>
   awaiting_ack (handle e c) \<and> event_name (handle e c) = event_name c"
  by (cases e) (simp_all add: awaiting_ack_def Let_def)

lemma awaiting_kept_run:
  "awaiting_ack c \<Longrightarrow> \<forall>x\<in>set pre. \<not> is_ack_or_timer x \<Longrightarrow>
   awaiting_ack (run_call pre c) \<and> event_name (run_call pre c) = event_name c"
  by (induction pre arbitrary: c) (simp_all add: awaiting_kept)

lemma settled_kept:
  "settled_call c \<Longrightarrow>
   settled_call (handle e c) \<and> settlements (handle e c) = settlements c"
  by (cases e) (simp_all add: settled_call_def Let_def split: option.splits)

lemma settled_kept_run:
  "settled_call c \<Longrightarrow> settlements (run_call es c) = settlements c"
  by (induction es arbitrary: c) (simp_all add: settled_kept)

lemma ack_settles:
  "awaiting_ack c \<Longrightarrow>
   settled_call (handle (Ack resp) c) \<and> settlements (handle (Ack resp) c) = [ack_result resp]"
  by (simp add: awaiting_ack_def settled_call_def settle_def Let_def)

lemma timer_settles:
  "awaiting_ack c \<Longrightarrow>
   settled_call (handle AckTimerFires c) \<and>
   settlements (handle AckTimerFires c) = [Rejected (JStr (''ack_timeout:'' @ event_name c))]"
  by (simp add: awaiting_ack_def settled_call_def settle_def Let_def)

lemma run_call_append: "run_call (xs @ ys) c = run_call ys (run_call xs c)"
  by (induction xs arbitrary: c) simp_all

lemma first_ack_wins:
  assumes "awaiting_ack c" and "\<forall>x\<in>set pre. \<not> is_ack_or_timer x"
  shows "settlements (run_call (pre @ Ack resp # es) c) = [ack_result resp]"
proof -
  have "awaiting_ack (run_call pre c)"
    using assms by (simp add: awaiting_kept_run)
  then show ?thesis
    by (simp add: run_call_append settled_kept_run ack_settles del: handle.simps)
qed

lemma first_timer_wins:
  assumes "awaiting_ack c" and "\<forall>x\<in>set pre. \<not> is_ack_or_timer x"
  shows "settlements (run_call (pre @ AckTimerFires # es) c) =
           [Rejected (JStr (''ack_timeout:'' @ event_name c))]"
proof -
  have "awaiting_ack (run_call pre c) \<and> event_name (run_call pre c) = event_name c"
    using assms by (simp add: awaiting_kept_run)
  then show ?thesis
    by (simp add: run_call_append settled_kept_run timer_settles del: handle.simps)
qed

lemma ack_result_envelopes:
  "ack_result (JObj [(''ok'', JBool True), (''data'', d)]) = Resolved d"
  "ack_result (JObj [(''ok'', JBool False), (''error'', JStr m)]) = Rejected (JStr m)"
  by (simp_all add: ack_result_def)

text \<open>
  C6. Once the request of a call is out (at once on a connected socket, or after the
  socket has connected), nothing is settled and the timer of 20000 ms is armed for as
  long as neither the acknowledgement nor the timer comes. The first of the two settles
  the promise, and whatever comes later never settles it again: an acknowledgement
  resolves with the data of \<^verbatim>\<open>{ok: true, data}\<close> and rejects with the error of
  \<^verbatim>\<open>{ok: false, error}\<close>; the timer rejects with \<^verbatim>\<open>ack_timeout:\<close> followed by the
  event name. An acknowledgement after the timer is ignored and the promise stays
  rejected with the timeout.
\<close>

theorem emitAck_settles_once:
  assumes "c = emitAck ev p True \<or> c = handle Connect (emitAck ev p False)"
    and "\<forall>x\<in>set pre. \<not> is_ack_or_timer x"
  shows "settlements (run_call pre c) = [] \<and>
         ack_timer (run_call pre c) = Some 20000 \<and>
         settlements (run_call (pre @ Ack resp # es) c) = [ack_result resp] \<and>
         settlements (run_call (pre @ Ack (JObj [(''ok'', JBool True), (''data'', d)]) # es) c) =
           [Resolved d] \<and>
         settlements (run_call (pre @ Ack (JObj [(''ok'', JBool False), (''error'', JStr m)]) # es) c) =
           [Rejected (JStr m)] \<and>
         settlements (run_call (pre @ AckTimerFires # es) c) =
           [Rejected (JStr (''ack_timeout:'' @ ev))] \<and>
         promise_state (run_call (pre @ AckTimerFires # Ack resp # es) c) =
           Some (Rejected (JStr (''ack_timeout:'' @ ev)))"
proof -
  have start: "awaiting_ack c" and name: "event_name c = ev"
    using assms(1) awaiting_start event_name_start by auto
  have "awaiting_ack (run_call pre c)"
    using start assms(2) by (simp add: awaiting_kept_run)
  then have quiet: "settlements (run_call pre c) = [] \<and> ack_timer (run_call pre c) = Some 20000"
    by (simp add: awaiting_ack_def ackTimeoutMs_def)
  have timer: "settlements (run_call (pre @ AckTimerFires # xs) c) =
                 [Rejected (JStr (''ack_timeout:'' @ ev))]" for xs
    using first_timer_wins [OF start assms(2)] name by simp
  show ?thesis
    using quiet timer [of es] timer [of "Ack resp # es"]
    by (simp add: first_ack_wins [OF start assms(2)] ack_result_envelopes promise_state_def
          del: run_call.simps)
qed

theorem emitAck_settles_once_witness:
  "settlements (run_call [Connect] (emitAck ''move:play'' JNull True)) = [] \<and>
   settlements
     (run_call ([Connect] @ AckTimerFires # [Ack (JObj [(''ok'', JBool True), (''data'', JNum 7)])])
        (emitAck ''move:play'' JNull True)) = [Rejected (JStr ''ack_timeout:move:play'')] \<and>
   settlements
     (run_call ([Connect] @ Ack (JObj [(''ok'', JBool True), (''data'', JNum 7)]) # [AckTimerFires])
        (emitAck ''move:play'' JNull True)) = [Resolved (JNum 7)]"
proof -
  have quiet: "\<forall>x\<in>set [Connect]. \<not> is_ack_or_timer x"
    by simp
  have start: "emitAck ''move:play'' JNull True = emitAck ''move:play'' JNull True \<or>
               emitAck ''move:play'' JNull True = handle Connect (emitAck ''move:play'' JNull False)"
    by simp
  show ?thesis
    using emitAck_settles_once [OF start quiet, of _ "[AckTimerFires]" "JNum 7"]
          emitAck_settles_once [OF start quiet, of JNull "[Ack (JObj [(''ok'', JBool True), (''data'', JNum 7)])]"]
    by (simp add: call_defs Let_def)
qed

subsection \<open>Failing to connect\<close>

lemma failed_kept:
  "failed_call c \<Longrightarrow>
   failed_call (handle e c) \<and> settlements (handle e c) = settlements c \<and>
   emitted (handle e c) = emitted c"
  by (cases e) (simp_all add: failed_call_def Let_def)

lemma failed_kept_run:
  "failed_call c \<Longrightarrow>
   settlements (run_call es c) = settlements c \<and> emitted (run_call es c) = emitted c"
  by (induction es arbitrary: c) (simp_all add: failed_kept)

lemma connect_error_fails:
  "failed_call (handle (ConnectError err) (emitAck ev p False))"
  "settlements (handle (ConnectError err) (emitAck ev p False)) =
     [Rejected (coalesce (get_prop err ''message'') (JStr ''socket_not_connected''))]"
  "emitted (handle (ConnectError err) (emitAck ev p False)) = []"
  by (simp_all add: failed_call_def call_defs Let_def)

lemma connect_timer_fails:
  "failed_call (handle ConnectTimerFires (emitAck ev p False))"
  "settlements (handle ConnectTimerFires (emitAck ev p False)) =
     [Rejected (JStr ''socket_connect_timeout'')]"
  "emitted (handle ConnectTimerFires (emitAck ev p False)) = []"
  by (simp_all add: failed_call_def call_defs Let_def JError_def)

text \<open>
  C7. On a socket that is not connected \<^verbatim>\<open>emitAck\<close> sends nothing and settles nothing
  at first: it waits for \<^verbatim>\<open>ensureConnected\<close>, whose timer of 5000 ms is armed; the
  request goes out only when the socket has connected (at once if it already was). If
  the connection fails first, by a connection error or by that timer, the promise is
  rejected with the message of the underlying error (\<^verbatim>\<open>socket_not_connected\<close> when it
  has none; \<^verbatim>\<open>socket_connect_timeout\<close> for the timer), and no request is sent then
  or later.
\<close>

theorem emitAck_not_connected:
  "emitted (emitAck ev p False) = [] \<and>
   settlements (emitAck ev p False) = [] \<and>
   connect_timer (emitAck ev p False) = Some 5000 \<and>
   emitted (handle Connect (emitAck ev p False)) = [(ev, p)] \<and>
   emitted (emitAck ev p True) = [(ev, p)] \<and>
   settlements (run_call (ConnectError err # es) (emitAck ev p False)) =
     [Rejected (coalesce (get_prop err ''message'') (JStr ''socket_not_connected''))] \<and>
   emitted (run_call (ConnectError err # es) (emitAck ev p False)) = [] \<and>
   settlements (run_call (ConnectTimerFires # es) (emitAck ev p False)) =
     [Rejected (JStr ''socket_connect_timeout'')] \<and>
   emitted (run_call (ConnectTimerFires # es) (emitAck ev p False)) = []"
proof -
  have "emitted (emitAck ev p False) = [] \<and> settlements (emitAck ev p False) = [] \<and>
        connect_timer (emitAck ev p False) = Some 5000 \<and>
        emitted (handle Connect (emitAck ev p False)) = [(ev, p)] \<and>
        emitted (emitAck ev p True) = [(ev, p)]"
    by (simp add: call_defs Let_def connectTimeoutMs_def)
  then show ?thesis
    by (simp add: failed_kept_run connect_error_fails connect_timer_fails del: handle.simps)
qed

subsection \<open>Acknowledgements that are not a success\<close>

text \<open>
  C9 (as amended). An acknowledgement whose envelope is absent or whose \<^verbatim>\<open>ok\<close> is
  missing or falsy (\<^verbatim>\<open>null\<close>, \<^verbatim>\<open>undefined\<close>, \<^verbatim>\<open>{}\<close>, \<^verbatim>\<open>{ok: false}\<close>) rejects
  the promise, with the envelope's \<^verbatim>\<open>error\<close> when that is neither null nor undefined
  and with \<^verbatim>\<open>error\<close> otherwise, and the promise is never resolved from it. Every
  envelope whose \<^verbatim>\<open>ok\<close> is truthy, whether or not it is \<^verbatim>\<open>true\<close>, resolves the
  promise with its \<^verbatim>\<open>data\<close>.
\<close>

theorem falsy_ack_rejects:
  assumes "c = emitAck ev p True \<or> c = handle Connect (emitAck ev p False)"
    and "\<not> truthy (get_prop resp ''ok'')"
  shows "settlements (run_call (Ack resp # es) c) =
           [Rejected (coalesce (get_prop resp ''error'') (JStr ''error''))] \<and>
         promise_state (run_call (Ack resp # es) c) =
           Some (Rejected (coalesce (get_prop resp ''error'') (JStr ''error''))) \<and>
         settlements (run_call (Ack JNull # es) c) = [Rejected (JStr ''error'')] \<and>
         settlements (run_call (Ack JUndefined # es) c) = [Rejected (JStr ''error'')] \<and>
         settlements (run_call (Ack (JObj []) # es) c) = [Rejected (JStr ''error'')] \<and>
         (truthy (get_prop other ''ok'') \<longrightarrow>
            settlements (run_call (Ack other # es) c) = [Resolved (get_prop other ''data'')])"
proof -
  have start: "awaiting_ack c"
    using assms(1) awaiting_start by auto
  have "settlements (run_call (Ack r # es) c) = [ack_result r]" for r
    using first_ack_wins [OF start, of "[]"] by (simp del: run_call.simps)
  then show ?thesis
    using assms(2) by (simp add: ack_result_def promise_state_def del: run_call.simps)
qed

theorem falsy_ack_rejects_witness:
  "\<not> truthy (get_prop (JObj [(''ok'', JBool False), (''error'', JStr ''illegal_move'')]) ''ok'') \<and>
   settlements
     (run_call (Ack (JObj [(''ok'', JBool False), (''error'', JStr ''illegal_move'')]) # [AckTimerFires])
        (emitAck ''move:play'' JNull True)) = [Rejected (JStr ''illegal_move'')] \<and>
   truthy (get_prop (JObj [(''ok'', JStr ''yes''), (''data'', JNum 7)]) ''ok'') \<and>
   settlements
     (run_call (Ack (JObj [(''ok'', JStr ''yes''), (''data'', JNum 7)]) # [AckTimerFires])
        (emitAck ''move:play'' JNull True)) = [Resolved (JNum 7)]"
proof -
  have start: "emitAck ''move:play'' JNull True = emitAck ''move:play'' JNull True \<or>
               emitAck ''move:play'' JNull True = handle Connect (emitAck ''move:play'' JNull False)"
    by simp
  have falsy: "\<not> truthy (get_prop (JObj [(''ok'', JBool False), (''error'', JStr ''illegal_move'')]) ''ok'')"
    by simp
  have yes: "truthy (get_prop (JObj [(''ok'', JStr ''yes''), (''data'', JNum 7)]) ''ok'')"
    by simp
  have rejected:
    "settlements
       (run_call (Ack (JObj [(''ok'', JBool False), (''error'', JStr ''illegal_move'')]) # [AckTimerFires])
          (emitAck ''move:play'' JNull True)) =
       [Rejected (coalesce (get_prop (JObj [(''ok'', JBool False), (''error'', JStr ''illegal_move'')])
                              ''error'') (JStr ''error''))]"
    using falsy_ack_rejects [OF start falsy, of "[AckTimerFires]"] by blast
  have resolved:
    "settlements
       (run_call (Ack (JObj [(''ok'', JStr ''yes''), (''data'', JNum 7)]) # [AckTimerFires])
          (emitAck ''move:play'' JNull True)) =
       [Resolved (get_prop (JObj [(''ok'', JStr ''yes''), (''data'', JNum 7)]) ''data'')]"
    using yes falsy_ack_rejects [OF start falsy, of "[AckTimerFires]"
                                   "JObj [(''ok'', JStr ''yes''), (''data'', JNum 7)]"]
    by blast
  show ?thesis
    using falsy yes rejected resolved by (simp del: run_call.simps)
qed

text \<open>
  The claim as stated fails for an envelope whose \<^verbatim>\<open>ok\<close> is truthy without being
  \<^verbatim>\<open>true\<close>: the promise is resolved with its data.
\<close>

theorem truthy_ok_resolves:
  "settlements
     (run_call [Ack (JObj [(''ok'', JNum 1), (''data'', JStr ''x'')])]
        (emitAck ''join'' (JObj [(''gameId'', JStr ''g1'')]) True)) = [Resolved (JStr ''x'')]"
  by (simp add: call_defs ack_result_def Let_def)

end
